theory Spec2Isabelle
  imports Main
begin

section \<open>The drawing surface\<close>

text \<open>
  Every report script of the repository draws on one \<^verbatim>\<open>reportlab\<close> canvas \<^verbatim>\<open>c\<close>,
  created by \<^verbatim>\<open>canvas.Canvas(filename, pagesize=letter)\<close> and closed over by the nested
  helpers \<^verbatim>\<open>add_footer\<close> and \<^verbatim>\<open>draw_text_lines\<close>. The canvas is a library object; it is
  modelled by the state the scripts can observe: the active font and fill colour, the
  marks put on the page being drawn, the pages already closed by \<^verbatim>\<open>showPage\<close>, and how
  often the document was saved. A mark remembers the font and the colour that were active
  when it was drawn. Coordinates are points; the scripts only ever combine the integral
  page size with integer literals, so they are integers here.
\<close>

type_synonym color = string

datatype mark =
    Text int int string string int color
  | Centred int int string string int color
  | Image string int int int int

record canvas =
  filename :: string
  fontname :: string
  fontsize :: int
  fillcolor :: color
  page :: "mark list"
  pages :: "mark list list"
  saves :: nat

text \<open>\<^verbatim>\<open>width, height = letter\<close>, the page size used by every script.\<close>

definition width :: int where
  "width = 612"

definition height :: int where
  "height = 792"

text \<open>A new canvas starts in the library's initial graphics state: Helvetica 12, black.\<close>

definition Canvas :: "string \<Rightarrow> canvas" where
  "Canvas name =
     \<lparr>filename = name, fontname = ''Helvetica'', fontsize = 12, fillcolor = ''#000000'',
      page = [], pages = [], saves = 0\<rparr>"

definition setFont :: "string \<Rightarrow> int \<Rightarrow> canvas \<Rightarrow> canvas" where
  "setFont psfontname sz c = c\<lparr>fontname := psfontname, fontsize := sz\<rparr>"

definition setFillColor :: "color \<Rightarrow> canvas \<Rightarrow> canvas" where
  "setFillColor col c = c\<lparr>fillcolor := col\<rparr>"

definition drawString :: "int \<Rightarrow> int \<Rightarrow> string \<Rightarrow> canvas \<Rightarrow> canvas" where
  "drawString x y s c =
     c\<lparr>page := page c @ [Text x y s (fontname c) (fontsize c) (fillcolor c)]\<rparr>"

definition drawCentredString :: "int \<Rightarrow> int \<Rightarrow> string \<Rightarrow> canvas \<Rightarrow> canvas" where
  "drawCentredString x y s c =
     c\<lparr>page := page c @ [Centred x y s (fontname c) (fontsize c) (fillcolor c)]\<rparr>"

text \<open>
  \<^verbatim>\<open>showPage\<close> closes the page being drawn and opens a blank one. The library forgets
  every state change (font, colour) when it advances to a new page and starts the page in
  its initial graphics state, which is why the scripts set font and colour again after it.
\<close>

definition showPage :: "canvas \<Rightarrow> canvas" where
  "showPage c =
     c\<lparr>pages := pages c @ [page c], page := [],
       fontname := ''Helvetica'', fontsize := 12, fillcolor := ''#000000''\<rparr>"


section \<open>The footer\<close>

text \<open>
  \<^verbatim>\<open>add_footer\<close> is the same nested function in \<^verbatim>\<open>cancer_analysis.py\<close>,
  \<^verbatim>\<open>titanic_analysis.py\<close>, \<^verbatim>\<open>diabetes.py\<close>, \<^verbatim>\<open>hiv_insight.py\<close> and \<^verbatim>\<open>death_causes.py\<close>.
\<close>

definition footer_text :: string where
  "footer_text =
     ''Generated by Insight Hub Analysis Program created by Mwenda E. Njagi at GitHub.com. Link: https://github.com/MwendaKE/InsightHub.''"

definition add_footer :: "canvas \<Rightarrow> canvas" where
  "add_footer c =
     (let c = setFillColor ''#666666'' c;
          c = setFont ''Helvetica-Oblique'' 8 c;
          c = drawCentredString (width div 2) 20 footer_text c
      in c)"

section \<open>Drawing text lines with pagination\<close>

text \<open>
  \<^verbatim>\<open>draw_text_lines\<close> of \<^verbatim>\<open>cancer_analysis.py\<close> and \<^verbatim>\<open>titanic_analysis.py\<close>. The two
  copies differ only in the value of the enclosing \<^verbatim>\<open>primary_color\<close>, which is the first
  argument here. The body of the \<^verbatim>\<open>for\<close> loop is a function of the loop state
  \<open>(current_y, c)\<close>; the loop is its \<^const>\<open>fold\<close> over the lines.
\<close>

definition draw_text_lines_body ::
  "color \<Rightarrow> int \<Rightarrow> int \<Rightarrow> string \<Rightarrow> int \<Rightarrow> color \<Rightarrow> string \<Rightarrow> int \<times> canvas \<Rightarrow> int \<times> canvas"
where
  "draw_text_lines_body primary_color line_height left_margin font_name font_size text_color
       line s =
     (let (current_y, c) = s;
          (current_y, c) =
            (if current_y < 50 then
               (let c = add_footer c;
                    c = showPage c;
                    current_y = height - 50;
                    c = setFont font_name font_size c;
                    c = setFillColor text_color c;
                    c = setFillColor primary_color c;
                    c = setFont ''Helvetica-Bold'' 16 c;
                    c = drawString 50 (height - 30) ''Continued Analysis'' c;
                    c = setFont font_name font_size c;
                    c = setFillColor text_color c
                in (current_y, c))
             else (current_y, c));
          c = drawString left_margin current_y line c;
          current_y = current_y - line_height
      in (current_y, c))"

definition draw_text_lines ::
  "color \<Rightarrow> string list \<Rightarrow> int \<Rightarrow> int \<Rightarrow> int \<Rightarrow> int \<Rightarrow> string \<Rightarrow> int \<Rightarrow> color \<Rightarrow> canvas
     \<Rightarrow> int \<times> canvas"
where
  "draw_text_lines primary_color lines start_y line_height left_margin right_margin
       font_name font_size text_color c =
     (let current_y = start_y;
          c = setFont font_name font_size c;
          c = setFillColor text_color c
      in fold (draw_text_lines_body primary_color line_height left_margin font_name font_size
                 text_color) lines (current_y, c))"

text \<open>
  \<^verbatim>\<open>draw_text_lines\<close> of \<^verbatim>\<open>diabetes.py\<close>: the same loop without the continuation header.
\<close>

definition draw_text_lines_diabetes_body ::
  "int \<Rightarrow> int \<Rightarrow> string \<Rightarrow> int \<Rightarrow> color \<Rightarrow> string \<Rightarrow> int \<times> canvas \<Rightarrow> int \<times> canvas"
where
  "draw_text_lines_diabetes_body line_height left_margin font_name font_size text_color line s =
     (let (current_y, c) = s;
          (current_y, c) =
            (if current_y < 50 then
               (let c = add_footer c;
                    c = showPage c;
                    current_y = height - 50;
                    c = setFont font_name font_size c;
                    c = setFillColor text_color c
                in (current_y, c))
             else (current_y, c));
          c = drawString left_margin current_y line c;
          current_y = current_y - line_height
      in (current_y, c))"

definition draw_text_lines_diabetes ::
  "string list \<Rightarrow> int \<Rightarrow> int \<Rightarrow> int \<Rightarrow> int \<Rightarrow> string \<Rightarrow> int \<Rightarrow> color \<Rightarrow> canvas \<Rightarrow> int \<times> canvas"
where
  "draw_text_lines_diabetes lines start_y line_height left_margin right_margin
       font_name font_size text_color c =
     (let current_y = start_y;
          c = setFont font_name font_size c;
          c = setFillColor text_color c
      in fold (draw_text_lines_diabetes_body line_height left_margin font_name font_size
                 text_color) lines (current_y, c))"

section \<open>The cancer report\<close>

text \<open>
  \<^verbatim>\<open>generate_cancer_pdf\<close> of \<^verbatim>\<open>cancer_analysis.py\<close>. The only canvas call of the
  function that can raise is \<^verbatim>\<open>drawImage\<close>, when the image file is missing; the exception
  is a value here, together with the canvas as it was when the call raised. Which image files
  exist is an argument, \<open>present\<close>.
\<close>

datatype error = IOError string

type_synonym outcome = "error \<times> canvas + canvas"



text \<open>
  The lines that the function formats from its arguments (statistics, regional data, cancer
  types, age data) and from the clock are inputs of the model, already formatted.
\<close>

record report_text =
  generated_on :: string
  summary_text :: "string list"
  regional_summary :: "string list"
  cancer_type_list :: "string list"
  age_text :: "string list"

definition primary_color :: color where
  "primary_color = ''#E63946''"



text \<open>The bullet character of the source's string literals, as its UTF-8 bytes.\<close>

definition bullet :: string where
  "bullet = [CHR 0xE2, CHR 0x80, CHR 0xA2]"





text \<open>Lines 361 to 387: the executive summary.\<close>

definition executive_summary :: "report_text \<Rightarrow> canvas \<Rightarrow> outcome" where
  "executive_summary inp c =
     (let c = setFillColor primary_color c;
          c = setFont ''Helvetica-Bold'' 18 c;
          c = drawString 50 (height - 50) ''Executive Summary'' c;
          y_pos = height - 80;
          (y_pos, c) = draw_text_lines primary_color (summary_text inp) y_pos 15 70 50
                         ''Helvetica'' 10 ''#333333'' c;
          c = add_footer c;
          c = showPage c
      in Inr c)"









section \<open>The last pages of the HIV report and of the causes of death report\<close>

text \<open>
  \<^verbatim>\<open>generate_pdf\<close> of \<^verbatim>\<open>hiv_insight.py\<close> (lines 415 to 462) and \<^verbatim>\<open>generate_pdf_report\<close> of
  \<^verbatim>\<open>death_causes.py\<close> (lines 428 to 469) do not call a helper for their last page: each
  draws a fixed list of lines in a loop of its own, which tests the cursor after the line
  is drawn, and saves the document.
\<close>

definition hiv_recommendations :: "string list" where
  "hiv_recommendations =
     [''1. TARGETED INTERVENTIONS:'',
      ''   '' @ bullet @ '' Focus resources on high-prevalence regions'',
      ''   '' @ bullet @ '' Customize programs to local cultural contexts'',
      ''   '' @ bullet @ '' Address economic barriers to healthcare access'',
      [],
      ''2. PREVENTION STRATEGIES:'',
      ''   '' @ bullet @ '' Expand comprehensive sex education'',
      ''   '' @ bullet @ '' Increase availability of prevention tools'',
      ''   '' @ bullet @ '' Combat stigma through public awareness'',
      [],
      ''3. TREATMENT ACCESS:'',
      ''   '' @ bullet @ '' Improve antiretroviral therapy availability'',
      ''   '' @ bullet @ '' Strengthen healthcare infrastructure'',
      ''   '' @ bullet @ '' Support research for better treatments'',
      [],
      ''4. GLOBAL COOPERATION:'',
      ''   '' @ bullet @ '' Maintain international funding commitments'',
      ''   '' @ bullet @ '' Share successful strategies across borders'',
      ''   '' @ bullet @ '' Coordinate research and development efforts'',
      [],
      ''5. DATA-DRIVEN APPROACH:'',
      ''   '' @ bullet @ '' Continue robust surveillance and reporting'',
      ''   '' @ bullet @ '' Use data to identify emerging trends'',
      ''   '' @ bullet @ '' Evaluate program effectiveness regularly'']"

definition hiv_recommendations_body :: "string \<Rightarrow> int \<times> canvas \<Rightarrow> int \<times> canvas" where
  "hiv_recommendations_body line s =
     (let (y_rec, c) = s;
          c = drawString 70 y_rec line c;
          y_rec = y_rec - 15;
          (y_rec, c) =
            (if y_rec < 50 then
               (let c = add_footer c;
                    c = showPage c;
                    y_rec = height - 50;
                    c = setFont ''Helvetica'' 10 c;
                    c = add_footer c
                in (y_rec, c))
             else (y_rec, c))
      in (y_rec, c))"


definition insights :: "string list" where
  "insights =
     [''1. DATA AVAILABILITY:'',
      ''   '' @ bullet @ '' Real-world mortality data is crucial for accurate analysis'',
      ''   '' @ bullet @ '' Multiple data sources should be integrated for robustness'',
      ''   '' @ bullet @ '' Regular updates ensure timely insights'',
      [],
      ''2. SYSTEM CAPABILITIES:'',
      ''   '' @ bullet @ '' This analysis system can process complex mortality data'',
      ''   '' @ bullet @ '' Automated report generation saves time and resources'',
      ''   '' @ bullet @ '' Visualizations help communicate complex patterns effectively'',
      [],
      ''3. FUTURE ENHANCEMENTS:'',
      ''   '' @ bullet @ '' Integrate with additional data sources when available'',
      ''   '' @ bullet @ '' Add more sophisticated statistical analyses'',
      ''   '' @ bullet @ '' Include predictive modeling capabilities'',
      [],
      ''4. PUBLIC HEALTH IMPLICATIONS:'',
      ''   '' @ bullet @ '' Understanding mortality patterns informs health policy'',
      ''   '' @ bullet @ '' Regional disparities highlight areas needing intervention'',
      ''   '' @ bullet @ '' Temporal trends help evaluate public health initiatives'']"

definition insights_body :: "string \<Rightarrow> int \<times> canvas \<Rightarrow> int \<times> canvas" where
  "insights_body line s =
     (let (y_insights, c) = s;
          c = drawString 70 y_insights line c;
          y_insights = y_insights - 15;
          (y_insights, c) =
            (if y_insights < 50 then
               (let c = add_footer c;
                    c = showPage c;
                    y_insights = height - 50;
                    c = setFont ''Helvetica'' 10 c
                in (y_insights, c))
             else (y_insights, c))
      in (y_insights, c))"


section \<open>Notions used to state the properties\<close>

text \<open>
  Every mark on the canvas in drawing order, the marks a call has added to a canvas, the
  two marks of a page break (the footer that \<^verbatim>\<open>add_footer\<close> draws and the continuation
  header), and a canvas whose active style is the one of a run of lines.
\<close>

definition all_marks :: "canvas \<Rightarrow> mark list" where
  "all_marks c = concat (pages c) @ page c"

definition marks_added :: "canvas \<Rightarrow> canvas \<Rightarrow> mark list" where
  "marks_added c c' = drop (length (all_marks c)) (all_marks c')"

definition footer_mark :: mark where
  "footer_mark = Centred 306 20 footer_text ''Helvetica-Oblique'' 8 ''#666666''"

definition header_mark :: "color \<Rightarrow> mark" where
  "header_mark primary =
     Text 50 762 ''Continued Analysis'' ''Helvetica-Bold'' 16 primary"

definition styled :: "string \<Rightarrow> int \<Rightarrow> color \<Rightarrow> canvas \<Rightarrow> bool" where
  "styled font_name font_size text_color c =
     (fontname c = font_name \<and> fontsize c = font_size \<and> fillcolor c = text_color)"

text \<open>The space between the top and the bottom margin of a page.\<close>

definition usable_height :: int where
  "usable_height = height - 50 - 50"




section \<open>Facts about the model\<close>

subsection \<open>The canvas operations\<close>

lemma add_footer_eq:
  "add_footer c =
     c\<lparr>fontname := ''Helvetica-Oblique'', fontsize := 8, fillcolor := ''#666666'',
       page := page c @ [footer_mark]\<rparr>"
  by (simp add: add_footer_def setFillColor_def setFont_def drawCentredString_def
        footer_mark_def width_def)




subsection \<open>The helper of the cancer and Titanic reports\<close>

text \<open>
  One step of the loop, with and without a page break; the loop from its last line, which
  gives induction on the lines with the starting canvas fixed; and what a call preserves.
\<close>

lemma body_break:
  "y < 50 \<Longrightarrow>
   draw_text_lines_body pc lh lm fn fs tc line (y, c) =
     (742 - lh,
      c\<lparr>fontname := fn, fontsize := fs, fillcolor := tc,
        pages := pages c @ [page c @ [footer_mark]],
        page := [header_mark pc, Text lm 742 line fn fs tc]\<rparr>)"
  by (simp add: draw_text_lines_body_def add_footer_eq showPage_def setFont_def
        setFillColor_def drawString_def header_mark_def height_def)

lemma body_fit:
  "\<not> y < 50 \<Longrightarrow>
   draw_text_lines_body pc lh lm fn fs tc line (y, c) =
     (y - lh, c\<lparr>page := page c @ [Text lm y line (fontname c) (fontsize c) (fillcolor c)]\<rparr>)"
  by (simp add: draw_text_lines_body_def drawString_def)

lemma draw_text_lines_Nil:
  "draw_text_lines pc [] y lh lm rm fn fs tc c =
     (y, c\<lparr>fontname := fn, fontsize := fs, fillcolor := tc\<rparr>)"
  by (simp add: draw_text_lines_def setFont_def setFillColor_def)

lemma draw_text_lines_snoc:
  "draw_text_lines pc (ls @ [l]) y lh lm rm fn fs tc c =
     draw_text_lines_body pc lh lm fn fs tc l (draw_text_lines pc ls y lh lm rm fn fs tc c)"
  by (simp add: draw_text_lines_def Let_def)

lemma draw_text_lines_take_Suc:
  assumes "k < length ls"
  shows "draw_text_lines pc (take (Suc k) ls) y lh lm rm fn fs tc c =
     draw_text_lines_body pc lh lm fn fs tc (ls ! k)
       (draw_text_lines pc (take k ls) y lh lm rm fn fs tc c)"
  by (simp add: take_Suc_conv_app_nth [OF assms] draw_text_lines_snoc)

lemma styled_draw_text_lines:
  "styled fn fs tc (snd (draw_text_lines pc ls y lh lm rm fn fs tc c))"
proof (induction ls rule: rev_induct)
  case Nil
  show ?case by (simp add: draw_text_lines_Nil styled_def)
next
  case (snoc l ls)
  obtain y' c' where r: "draw_text_lines pc ls y lh lm rm fn fs tc c = (y', c')"
    by (cases "draw_text_lines pc ls y lh lm rm fn fs tc c")
  with snoc have "styled fn fs tc c'" by simp
  then show ?case
    by (cases "y' < 50") (simp_all add: draw_text_lines_snoc r body_break body_fit styled_def)
qed

lemma body_styled:
  assumes "styled fn fs tc c"
  shows "draw_text_lines_body pc lh lm fn fs tc line (y, c) =
     (if y < 50 then
        (742 - lh,
         c\<lparr>pages := pages c @ [page c @ [footer_mark]],
           page := [header_mark pc, Text lm 742 line fn fs tc]\<rparr>)
      else (y - lh, c\<lparr>page := page c @ [Text lm y line fn fs tc]\<rparr>))"
  using assms by (auto simp: body_break body_fit styled_def)

lemma all_marks_body:
  assumes "styled fn fs tc c"
  shows "all_marks (snd (draw_text_lines_body pc lh lm fn fs tc line (y, c))) =
     all_marks c @
       (if y < 50 then [footer_mark, header_mark pc, Text lm 742 line fn fs tc]
        else [Text lm y line fn fs tc])"
  by (simp add: body_styled [OF assms] all_marks_def)

lemma all_marks_draw_text_lines:
  "all_marks (snd (draw_text_lines pc ls y lh lm rm fn fs tc c)) =
     all_marks c @ marks_added c (snd (draw_text_lines pc ls y lh lm rm fn fs tc c))"
proof (induction ls rule: rev_induct)
  case Nil
  show ?case by (simp add: draw_text_lines_Nil all_marks_def marks_added_def)
next
  case (snoc l ls)
  obtain y' c' where r: "draw_text_lines pc ls y lh lm rm fn fs tc c = (y', c')"
    by (cases "draw_text_lines pc ls y lh lm rm fn fs tc c")
  have st: "styled fn fs tc c'"
    using styled_draw_text_lines [of fn fs tc pc ls y lh lm rm c] by (simp add: r)
  from snoc r have "all_marks c' = all_marks c @ marks_added c c'" by simp
  then obtain ms where ms: "all_marks c' = all_marks c @ ms" ..
  show ?case
    by (simp add: draw_text_lines_snoc r all_marks_body [OF st] ms marks_added_def)
qed

lemma marks_added_Nil:
  "marks_added c (snd (draw_text_lines pc [] y lh lm rm fn fs tc c)) = []"
  by (simp add: draw_text_lines_Nil marks_added_def all_marks_def)

lemma marks_added_snoc:
  assumes "draw_text_lines pc ls y lh lm rm fn fs tc c = (y', c')"
  shows "marks_added c (snd (draw_text_lines pc (ls @ [l]) y lh lm rm fn fs tc c)) =
     marks_added c c' @
       (if y' < 50 then [footer_mark, header_mark pc, Text lm 742 l fn fs tc]
        else [Text lm y' l fn fs tc])"
proof -
  have st: "styled fn fs tc c'"
    using styled_draw_text_lines [of fn fs tc pc ls y lh lm rm c] by (simp add: assms)
  have "all_marks c' = all_marks c @ marks_added c c'"
    using all_marks_draw_text_lines [of pc ls y lh lm rm fn fs tc c] by (simp add: assms)
  then obtain ms where ms: "all_marks c' = all_marks c @ ms" ..
  show ?thesis
    by (simp add: draw_text_lines_snoc assms all_marks_body [OF st] ms marks_added_def)
qed

lemma fst_draw_text_lines_snoc:
  assumes "draw_text_lines pc ls y lh lm rm fn fs tc c = (y', c')"
  shows "fst (draw_text_lines pc (ls @ [l]) y lh lm rm fn fs tc c) =
     (if y' < 50 then 742 else y') - lh"
  by (cases "y' < 50") (simp_all add: draw_text_lines_snoc assms body_break body_fit)

lemma cursor_le_top:
  assumes "start_y \<le> 742" "0 \<le> lh"
  shows "fst (draw_text_lines pc ls start_y lh lm rm fn fs tc c) \<le> 742"
proof (induction ls rule: rev_induct)
  case Nil
  show ?case using assms by (simp add: draw_text_lines_Nil)
next
  case (snoc l ls)
  obtain y' c' where r: "draw_text_lines pc ls start_y lh lm rm fn fs tc c = (y', c')"
    by (cases "draw_text_lines pc ls start_y lh lm rm fn fs tc c")
  with snoc have "y' \<le> 742" by simp
  then show ?case using assms by (simp add: fst_draw_text_lines_snoc [OF r])
qed

lemma no_text_below_cancer:
  "Text x y s f z col \<in> set (marks_added c
       (snd (draw_text_lines primary lines start_y line_height left_margin right_margin
          font_name font_size text_color c)))
   \<Longrightarrow> 50 \<le> y"
proof (induction lines rule: rev_induct)
  case Nil
  then show ?case by (simp add: marks_added_Nil)
next
  case (snoc l ls)
  obtain y' c' where r:
    "draw_text_lines primary ls start_y line_height left_margin right_margin
       font_name font_size text_color c = (y', c')"
    by (cases "draw_text_lines primary ls start_y line_height left_margin right_margin
       font_name font_size text_color c")
  from snoc.prems show ?case
    using snoc.IH
    by (auto simp: marks_added_snoc [OF r] r header_mark_def footer_mark_def split: if_splits)
qed

lemma run_style_marks:
  "list_all (\<lambda>m. m = footer_mark \<or> m = header_mark pc \<or> (\<exists>y line. m = Text lm y line fn fs tc))
     (marks_added c (snd (draw_text_lines pc ls y0 lh lm rm fn fs tc c)))"
proof (induction ls rule: rev_induct)
  case Nil
  show ?case by (simp add: marks_added_Nil)
next
  case (snoc l ls)
  obtain y' c' where r: "draw_text_lines pc ls y0 lh lm rm fn fs tc c = (y', c')"
    by (cases "draw_text_lines pc ls y0 lh lm rm fn fs tc c")
  with snoc show ?case by (simp add: marks_added_snoc [OF r])
qed

lemma pages_fold_body:
  assumes "0 < lh"
  shows "j \<le> nat (692 div lh) + 1 \<Longrightarrow> y = 742 - int j * lh \<Longrightarrow>
     length (pages (snd (fold (draw_text_lines_body pc lh lm fn fs tc) ls (y, c)))) =
       length (pages c) + (length ls + j - 1) div (nat (692 div lh) + 1)"
proof (induction ls arbitrary: j y c)
  case Nil
  then show ?case by simp
next
  case (Cons l ls)
  let ?K = "nat (692 div lh) + 1"
  have q: "0 \<le> 692 div lh" using assms by (simp add: pos_imp_zdiv_nonneg_iff)
  have lo: "(692 div lh) * lh \<le> 692"
    using assms by (metis mult.commute mult_div_mod_eq add.commute  pos_mod_sign le_add_same_cancel2)
  have hi: "692 < (692 div lh + 1) * lh"
    using assms by (metis add.commute distrib_right mult.commute mult_1 mult_div_mod_eq pos_mod_bound add_strict_left_mono)
  show ?case
  proof (cases "y < 50")
    case True
    have "j = ?K"
    proof (rule ccontr)
      assume "j \<noteq> ?K"
      with Cons.prems q have "int j \<le> 692 div lh" by linarith
      then have "int j * lh \<le> (692 div lh) * lh" using assms by (simp add: mult_right_mono)
      with lo Cons.prems True show False by linarith
    qed
    have ih: "length (pages (snd (fold (draw_text_lines_body pc lh lm fn fs tc) ls (742 - lh, c')))) =
       length (pages c') + (length ls + 1 - 1) div ?K" for c'
      using Cons.IH [of 1 "742 - lh" c'] by simp
    have ar: "Suc (length ls + nat (692 div lh)) div Suc (nat (692 div lh)) =
        Suc (length ls div Suc (nat (692 div lh)))"
      using div_add_self2 [of "Suc (nat (692 div lh))" "length ls"] by simp
    show ?thesis using True \<open>j = ?K\<close>
      by (simp add: body_break ih ar)
  next
    case False
    have "j \<noteq> ?K"
    proof
      assume "j = ?K"
      then have "int j * lh = (692 div lh + 1) * lh" using q by simp
      with hi Cons.prems False show False by linarith
    qed
    with Cons.prems have j: "Suc j \<le> ?K" by linarith
    have e: "y - lh = 742 - int (Suc j) * lh"
      using Cons.prems(2) by (simp add: algebra_simps)
    have ih: "length (pages (snd (fold (draw_text_lines_body pc lh lm fn fs tc) ls (y - lh, c')))) =
       length (pages c') + (length ls + Suc j - 1) div ?K" for c'
      using Cons.IH [OF j e, of c'] by simp
    show ?thesis using False
      by (simp add: body_fit ih)
  qed
qed

lemma pages_draw_text_lines_from_top:
  assumes "0 < lh"
  shows "length (pages (snd (draw_text_lines pc ls (height - 50) lh lm rm fn fs tc c))) =
     length (pages c) + (length ls - 1) div (nat (usable_height div lh) + 1)"
  using pages_fold_body [OF assms, of 0 742 pc lm fn fs tc ls "setFillColor tc (setFont fn fs c)"]
  by (simp add: draw_text_lines_def height_def usable_height_def setFont_def setFillColor_def)

lemma marks_count:
  "length (marks_added c (snd (draw_text_lines pc ls y0 lh lm rm fn fs tc c)))
     + 2 * length (pages c)
   = length ls + 2 * length (pages (snd (draw_text_lines pc ls y0 lh lm rm fn fs tc c)))"
proof (induction ls rule: rev_induct)
  case Nil
  show ?case by (simp add: marks_added_Nil) (simp add: draw_text_lines_Nil)
next
  case (snoc l ls)
  obtain y' c' where r: "draw_text_lines pc ls y0 lh lm rm fn fs tc c = (y', c')"
    by (cases "draw_text_lines pc ls y0 lh lm rm fn fs tc c")
  have p: "length (pages (snd (draw_text_lines pc (ls @ [l]) y0 lh lm rm fn fs tc c))) =
      (if y' < 50 then Suc (length (pages c')) else length (pages c'))"
    by (simp add: draw_text_lines_snoc r body_break body_fit)
  from snoc r show ?case by (simp add: marks_added_snoc [OF r] p)
qed




subsection \<open>The helper of the diabetes report\<close>

lemma diabetes_body_break:
  "y < 50 \<Longrightarrow>
   draw_text_lines_diabetes_body lh lm fn fs tc line (y, c) =
     (742 - lh,
      c\<lparr>fontname := fn, fontsize := fs, fillcolor := tc,
        pages := pages c @ [page c @ [footer_mark]],
        page := [Text lm 742 line fn fs tc]\<rparr>)"
  by (simp add: draw_text_lines_diabetes_body_def add_footer_eq showPage_def setFont_def
        setFillColor_def drawString_def height_def)

lemma diabetes_body_fit:
  "\<not> y < 50 \<Longrightarrow>
   draw_text_lines_diabetes_body lh lm fn fs tc line (y, c) =
     (y - lh, c\<lparr>page := page c @ [Text lm y line (fontname c) (fontsize c) (fillcolor c)]\<rparr>)"
  by (simp add: draw_text_lines_diabetes_body_def drawString_def)

lemma draw_text_lines_diabetes_Nil:
  "draw_text_lines_diabetes [] y lh lm rm fn fs tc c =
     (y, c\<lparr>fontname := fn, fontsize := fs, fillcolor := tc\<rparr>)"
  by (simp add: draw_text_lines_diabetes_def setFont_def setFillColor_def)

lemma draw_text_lines_diabetes_snoc:
  "draw_text_lines_diabetes (ls @ [l]) y lh lm rm fn fs tc c =
     draw_text_lines_diabetes_body lh lm fn fs tc l (draw_text_lines_diabetes ls y lh lm rm fn fs tc c)"
  by (simp add: draw_text_lines_diabetes_def Let_def)

lemma styled_draw_text_lines_diabetes:
  "styled fn fs tc (snd (draw_text_lines_diabetes ls y lh lm rm fn fs tc c))"
proof (induction ls rule: rev_induct)
  case Nil
  show ?case by (simp add: draw_text_lines_diabetes_Nil styled_def)
next
  case (snoc l ls)
  obtain y' c' where r: "draw_text_lines_diabetes ls y lh lm rm fn fs tc c = (y', c')"
    by (cases "draw_text_lines_diabetes ls y lh lm rm fn fs tc c")
  with snoc have "styled fn fs tc c'" by simp
  then show ?case
    by (cases "y' < 50") (simp_all add: draw_text_lines_diabetes_snoc r diabetes_body_break diabetes_body_fit styled_def)
qed

lemma diabetes_body_styled:
  assumes "styled fn fs tc c"
  shows "draw_text_lines_diabetes_body lh lm fn fs tc line (y, c) =
     (if y < 50 then
        (742 - lh,
         c\<lparr>pages := pages c @ [page c @ [footer_mark]],
           page := [Text lm 742 line fn fs tc]\<rparr>)
      else (y - lh, c\<lparr>page := page c @ [Text lm y line fn fs tc]\<rparr>))"
  using assms by (auto simp: diabetes_body_break diabetes_body_fit styled_def)

lemma diabetes_all_marks_body:
  assumes "styled fn fs tc c"
  shows "all_marks (snd (draw_text_lines_diabetes_body lh lm fn fs tc line (y, c))) =
     all_marks c @
       (if y < 50 then [footer_mark, Text lm 742 line fn fs tc]
        else [Text lm y line fn fs tc])"
  by (simp add: diabetes_body_styled [OF assms] all_marks_def)

lemma all_marks_draw_text_lines_diabetes:
  "all_marks (snd (draw_text_lines_diabetes ls y lh lm rm fn fs tc c)) =
     all_marks c @ marks_added c (snd (draw_text_lines_diabetes ls y lh lm rm fn fs tc c))"
proof (induction ls rule: rev_induct)
  case Nil
  show ?case by (simp add: draw_text_lines_diabetes_Nil all_marks_def marks_added_def)
next
  case (snoc l ls)
  obtain y' c' where r: "draw_text_lines_diabetes ls y lh lm rm fn fs tc c = (y', c')"
    by (cases "draw_text_lines_diabetes ls y lh lm rm fn fs tc c")
  have st: "styled fn fs tc c'"
    using styled_draw_text_lines_diabetes [of fn fs tc ls y lh lm rm c] by (simp add: r)
  from snoc r have "all_marks c' = all_marks c @ marks_added c c'" by simp
  then obtain ms where ms: "all_marks c' = all_marks c @ ms" ..
  show ?case
    by (simp add: draw_text_lines_diabetes_snoc r diabetes_all_marks_body [OF st] ms marks_added_def)
qed

lemma diabetes_marks_added_snoc:
  assumes "draw_text_lines_diabetes ls y lh lm rm fn fs tc c = (y', c')"
  shows "marks_added c (snd (draw_text_lines_diabetes (ls @ [l]) y lh lm rm fn fs tc c)) =
     marks_added c c' @
       (if y' < 50 then [footer_mark, Text lm 742 l fn fs tc]
        else [Text lm y' l fn fs tc])"
proof -
  have st: "styled fn fs tc c'"
    using styled_draw_text_lines_diabetes [of fn fs tc ls y lh lm rm c] by (simp add: assms)
  have "all_marks c' = all_marks c @ marks_added c c'"
    using all_marks_draw_text_lines_diabetes [of ls y lh lm rm fn fs tc c] by (simp add: assms)
  then obtain ms where ms: "all_marks c' = all_marks c @ ms" ..
  show ?thesis
    by (simp add: draw_text_lines_diabetes_snoc assms diabetes_all_marks_body [OF st] ms marks_added_def)
qed

lemma diabetes_marks_added_Nil:
  "marks_added c (snd (draw_text_lines_diabetes [] y lh lm rm fn fs tc c)) = []"
  by (simp add: draw_text_lines_diabetes_Nil marks_added_def all_marks_def)

lemma no_text_below_diabetes:
  "Text x y s f z col \<in> set (marks_added c
       (snd (draw_text_lines_diabetes lines start_y line_height left_margin right_margin
          font_name font_size text_color c)))
   \<Longrightarrow> 50 \<le> y"
proof (induction lines rule: rev_induct)
  case Nil
  then show ?case by (simp add: diabetes_marks_added_Nil)
next
  case (snoc l ls)
  obtain y' c' where r:
    "draw_text_lines_diabetes ls start_y line_height left_margin right_margin
       font_name font_size text_color c = (y', c')"
    by (cases "draw_text_lines_diabetes ls start_y line_height left_margin right_margin
       font_name font_size text_color c")
  from snoc.prems show ?case
    using snoc.IH
    by (auto simp: diabetes_marks_added_snoc [OF r] r footer_mark_def split: if_splits)
qed

subsection \<open>The loops of the HIV report and of the causes of death report\<close>

text \<open>
  Both loops start at \<open>height - 80 = 712\<close> and draw fixed lists, of 24 and of 19 lines: the
  cursor ends at 352 and at 427, the branch that breaks the page is never entered, and each
  page is closed once, by \<^verbatim>\<open>save\<close>, with one footer.
\<close>

lemma hiv_body_no_break:
  "\<not> y - 15 < 50 \<Longrightarrow>
   hiv_recommendations_body line (y, c) =
     (y - 15, c\<lparr>page := page c @ [Text 70 y line (fontname c) (fontsize c) (fillcolor c)]\<rparr>)"
  by (simp add: hiv_recommendations_body_def drawString_def)

lemma hiv_recommendations_loop:
  "fold hiv_recommendations_body hiv_recommendations (712, c) =
     (352, c\<lparr>page := page c @
        map2 (\<lambda>k line. Text 70 (712 - 15 * int k) line (fontname c) (fontsize c) (fillcolor c))
          [0..<24] hiv_recommendations\<rparr>)"
  by (simp add: hiv_recommendations_def hiv_body_no_break height_def upt_rec [of _ "numeral _"])


lemma insights_body_no_break:
  "\<not> y - 15 < 50 \<Longrightarrow>
   insights_body line (y, c) =
     (y - 15, c\<lparr>page := page c @ [Text 70 y line (fontname c) (fontsize c) (fillcolor c)]\<rparr>)"
  by (simp add: insights_body_def drawString_def)

lemma insights_loop:
  "fold insights_body insights (712, c) =
     (427, c\<lparr>page := page c @
        map2 (\<lambda>k line. Text 70 (712 - 15 * int k) line (fontname c) (fontsize c) (fillcolor c))
          [0..<19] insights\<rparr>)"
  by (simp add: insights_def insights_body_no_break height_def upt_rec [of _ "numeral _"])



subsection \<open>The pages of the cancer report\<close>
























lemma fst_draw_text_lines_diabetes_snoc:
  assumes "draw_text_lines_diabetes ls y lh lm rm fn fs tc c = (y', c')"
  shows "fst (draw_text_lines_diabetes (ls @ [l]) y lh lm rm fn fs tc c) =
     (if y' < 50 then 742 else y') - lh"
  by (cases "y' < 50")
    (simp_all add: draw_text_lines_diabetes_snoc assms diabetes_body_break diabetes_body_fit)

lemma draw_text_lines_diabetes_take_Suc:
  assumes "k < length ls"
  shows "draw_text_lines_diabetes (take (Suc k) ls) y lh lm rm fn fs tc c =
     draw_text_lines_diabetes_body lh lm fn fs tc (ls ! k)
       (draw_text_lines_diabetes (take k ls) y lh lm rm fn fs tc c)"
  by (simp add: take_Suc_conv_app_nth [OF assms] draw_text_lines_diabetes_snoc)

lemma run_style_marks_diabetes:
  "list_all (\<lambda>m. m = footer_mark \<or> (\<exists>y line. m = Text lm y line fn fs tc))
     (marks_added c (snd (draw_text_lines_diabetes ls y0 lh lm rm fn fs tc c)))"
proof (induction ls rule: rev_induct)
  case Nil
  show ?case by (simp add: diabetes_marks_added_Nil)
next
  case (snoc l ls)
  obtain y' c' where r: "draw_text_lines_diabetes ls y0 lh lm rm fn fs tc c = (y', c')"
    by (cases "draw_text_lines_diabetes ls y0 lh lm rm fn fs tc c")
  with snoc show ?case by (simp add: diabetes_marks_added_snoc [OF r])
qed

lemma cursor_le_max:
  assumes "0 \<le> lh"
  shows "fst (draw_text_lines pc ls start_y lh lm rm fn fs tc c) \<le> max start_y 742"
proof (induction ls rule: rev_induct)
  case Nil
  show ?case by (simp add: draw_text_lines_Nil)
next
  case (snoc l ls)
  obtain y' c' where r: "draw_text_lines pc ls start_y lh lm rm fn fs tc c = (y', c')"
    by (cases "draw_text_lines pc ls start_y lh lm rm fn fs tc c")
  with snoc have "y' \<le> max start_y 742" by simp
  then show ?case using assms by (auto simp: fst_draw_text_lines_snoc [OF r])
qed

lemma cursor_le_max_diabetes:
  assumes "0 \<le> lh"
  shows "fst (draw_text_lines_diabetes ls start_y lh lm rm fn fs tc c) \<le> max start_y 742"
proof (induction ls rule: rev_induct)
  case Nil
  show ?case by (simp add: draw_text_lines_diabetes_Nil)
next
  case (snoc l ls)
  obtain y' c' where r: "draw_text_lines_diabetes ls start_y lh lm rm fn fs tc c = (y', c')"
    by (cases "draw_text_lines_diabetes ls start_y lh lm rm fn fs tc c")
  with snoc have "y' \<le> max start_y 742" by simp
  then show ?case using assms by (auto simp: fst_draw_text_lines_diabetes_snoc [OF r])
qed

lemma marks_between:
  "list_all (\<lambda>m. m = footer_mark \<or> (\<exists>x y s f z col. m = Text x y s f z col \<and> 50 \<le> y))
     (marks_added c (snd (draw_text_lines pc ls y0 lh lm rm fn fs tc c)))"
proof (induction ls rule: rev_induct)
  case Nil
  show ?case by (simp add: marks_added_Nil)
next
  case (snoc l ls)
  obtain y' c' where r: "draw_text_lines pc ls y0 lh lm rm fn fs tc c = (y', c')"
    by (cases "draw_text_lines pc ls y0 lh lm rm fn fs tc c")
  with snoc show ?case by (simp add: marks_added_snoc [OF r] header_mark_def)
qed

lemma marks_between_diabetes:
  "list_all (\<lambda>m. m = footer_mark \<or> (\<exists>x y s f z col. m = Text x y s f z col \<and> 50 \<le> y))
     (marks_added c (snd (draw_text_lines_diabetes ls y0 lh lm rm fn fs tc c)))"
proof (induction ls rule: rev_induct)
  case Nil
  show ?case by (simp add: diabetes_marks_added_Nil)
next
  case (snoc l ls)
  obtain y' c' where r: "draw_text_lines_diabetes ls y0 lh lm rm fn fs tc c = (y', c')"
    by (cases "draw_text_lines_diabetes ls y0 lh lm rm fn fs tc c")
  with snoc show ?case by (simp add: diabetes_marks_added_snoc [OF r])
qed

lemma marks_below_top:
  assumes "0 \<le> lh"
  shows "list_all (\<lambda>m. m = footer_mark
        \<or> (\<exists>x y s f z col. m = Text x y s f z col \<and> y \<le> max y0 762))
     (marks_added c (snd (draw_text_lines pc ls y0 lh lm rm fn fs tc c)))"
proof (induction ls rule: rev_induct)
  case Nil
  show ?case by (simp add: marks_added_Nil)
next
  case (snoc l ls)
  obtain y' c' where r: "draw_text_lines pc ls y0 lh lm rm fn fs tc c = (y', c')"
    by (cases "draw_text_lines pc ls y0 lh lm rm fn fs tc c")
  have "y' \<le> max y0 742"
    using cursor_le_max [OF assms, of pc ls y0 lm rm fn fs tc c] by (simp add: r)
  with snoc r show ?case by (auto simp: marks_added_snoc [OF r] header_mark_def)
qed

lemma marks_below_top_diabetes:
  assumes "0 \<le> lh"
  shows "list_all (\<lambda>m. m = footer_mark
        \<or> (\<exists>x y s f z col. m = Text x y s f z col \<and> y \<le> max y0 742))
     (marks_added c (snd (draw_text_lines_diabetes ls y0 lh lm rm fn fs tc c)))"
proof (induction ls rule: rev_induct)
  case Nil
  show ?case by (simp add: diabetes_marks_added_Nil)
next
  case (snoc l ls)
  obtain y' c' where r: "draw_text_lines_diabetes ls y0 lh lm rm fn fs tc c = (y', c')"
    by (cases "draw_text_lines_diabetes ls y0 lh lm rm fn fs tc c")
  have "y' \<le> max y0 742"
    using cursor_le_max_diabetes [OF assms, of ls y0 lm rm fn fs tc c] by (simp add: r)
  with snoc r show ?case by (auto simp: diabetes_marks_added_snoc [OF r])
qed

lemma step_of_run:
  assumes "k < length ls"
  shows "let (y, c1) = draw_text_lines pc (take k ls) y0 lh lm rm fn fs tc c;
             (y', c2) = draw_text_lines pc (take (Suc k) ls) y0 lh lm rm fn fs tc c
         in if y < 50 then
              pages c2 = pages c1 @ [page c1 @ [footer_mark]]
              \<and> page c2 = [header_mark pc, Text lm 742 (ls ! k) fn fs tc]
            else pages c2 = pages c1 \<and> page c2 = page c1 @ [Text lm y (ls ! k) fn fs tc]"
proof -
  obtain y c1 where r: "draw_text_lines pc (take k ls) y0 lh lm rm fn fs tc c = (y, c1)"
    by (cases "draw_text_lines pc (take k ls) y0 lh lm rm fn fs tc c")
  have st: "styled fn fs tc c1"
    using styled_draw_text_lines [of fn fs tc pc "take k ls" y0 lh lm rm c] by (simp add: r)
  show ?thesis
    by (simp add: draw_text_lines_take_Suc [OF assms] r body_styled [OF st])
qed

lemma step_of_run_diabetes:
  assumes "k < length ls"
  shows "let (y, c1) = draw_text_lines_diabetes (take k ls) y0 lh lm rm fn fs tc c;
             (y', c2) = draw_text_lines_diabetes (take (Suc k) ls) y0 lh lm rm fn fs tc c
         in if y < 50 then
              pages c2 = pages c1 @ [page c1 @ [footer_mark]]
              \<and> page c2 = [Text lm 742 (ls ! k) fn fs tc]
            else pages c2 = pages c1 \<and> page c2 = page c1 @ [Text lm y (ls ! k) fn fs tc]"
proof -
  obtain y c1 where r: "draw_text_lines_diabetes (take k ls) y0 lh lm rm fn fs tc c = (y, c1)"
    by (cases "draw_text_lines_diabetes (take k ls) y0 lh lm rm fn fs tc c")
  have st: "styled fn fs tc c1"
    using styled_draw_text_lines_diabetes [of fn fs tc "take k ls" y0 lh lm rm c] by (simp add: r)
  show ?thesis
    by (simp add: draw_text_lines_diabetes_take_Suc [OF assms] r diabetes_body_styled [OF st])
qed

section \<open>The claims\<close>

text \<open>
  C1, as the code has it. A line offered at cursor \<open>current_y\<close> stays on the current page
  if and only if \<open>50 \<le> current_y\<close>; the height of the line plays no part in the test.
  When it stays, it is drawn at \<open>current_y\<close> and the cursor decreases by the line height.
  Otherwise the page gets its footer and is closed, and the line is drawn on the new page at
  \<open>height - 50\<close> (in the cancer and Titanic helper below the continuation header), in the
  style of the run, before the cursor decreases.
\<close>

theorem line_placed_iff_cursor_at_least_50:
  "(pages (snd (draw_text_lines_body primary line_height left_margin font_name font_size
        text_color line (current_y, c))) = pages c) = (50 \<le> current_y)
   \<and> draw_text_lines_body primary line_height left_margin font_name font_size
        text_color line (current_y, c) =
       (if 50 \<le> current_y then
          (current_y - line_height,
           c\<lparr>page := page c @
               [Text left_margin current_y line (fontname c) (fontsize c) (fillcolor c)]\<rparr>)
        else
          (height - 50 - line_height,
           c\<lparr>fontname := font_name, fontsize := font_size, fillcolor := text_color,
             pages := pages c @ [page c @ [footer_mark]],
             page := [header_mark primary,
                      Text left_margin (height - 50) line font_name font_size text_color]\<rparr>))
   \<and> (pages (snd (draw_text_lines_diabetes_body line_height left_margin font_name font_size
        text_color line (current_y, c))) = pages c) = (50 \<le> current_y)
   \<and> draw_text_lines_diabetes_body line_height left_margin font_name font_size
        text_color line (current_y, c) =
       (if 50 \<le> current_y then
          (current_y - line_height,
           c\<lparr>page := page c @
               [Text left_margin current_y line (fontname c) (fontsize c) (fillcolor c)]\<rparr>)
        else
          (height - 50 - line_height,
           c\<lparr>fontname := font_name, fontsize := font_size, fillcolor := text_color,
             pages := pages c @ [page c @ [footer_mark]],
             page := [Text left_margin (height - 50) line font_name font_size text_color]\<rparr>))"
  by (cases "current_y < 50")
    (simp_all add: body_break body_fit diabetes_body_break diabetes_body_fit height_def)

text \<open>
  C1 as stated fails: at cursor 55 a line of height 15 would end at 40, below the bottom
  margin of 50, and still it is drawn on the current page, at 55, without a page break.
\<close>

theorem line_height_rule_counterexample:
  "\<not> 50 \<le> (55::int) - 15
   \<and> draw_text_lines ''#E63946'' [''x''] 55 15 70 50 ''Helvetica'' 10 ''#333333'' (Canvas ''r.pdf'')
     = (40, (Canvas ''r.pdf'')\<lparr>fontname := ''Helvetica'', fontsize := 10, fillcolor := ''#333333'',
              page := [Text 70 55 ''x'' ''Helvetica'' 10 ''#333333'']\<rparr>)
   \<and> draw_text_lines_diabetes [''x''] 55 15 70 50 ''Helvetica'' 10 ''#333333'' (Canvas ''r.pdf'')
     = (40, (Canvas ''r.pdf'')\<lparr>fontname := ''Helvetica'', fontsize := 10, fillcolor := ''#333333'',
              page := [Text 70 55 ''x'' ''Helvetica'' 10 ''#333333'']\<rparr>)"
  by (simp add: draw_text_lines_def draw_text_lines_diabetes_def body_fit diabetes_body_fit
        setFont_def setFillColor_def Canvas_def)

text \<open>
  C2, as the code has it. The code has no \<^verbatim>\<open>BlockTooLargeError\<close> and no \<^verbatim>\<open>raise\<close>:
  \<^verbatim>\<open>draw_text_lines\<close> returns for every list of lines. A run of lines is not kept together;
  it is split line by line. With a positive line height, a run started at the top cursor
  \<open>height - 50\<close> closes exactly \<open>(n - 1) div (usable_height div line_height + 1)\<close> pages
  for its \<open>n\<close> lines, however tall the run is, and adds one mark per line and two marks
  (footer and continuation header) per page closed.
\<close>

theorem tall_block_is_split_over_pages:
  assumes "0 < line_height"
  shows "length (pages (snd (draw_text_lines primary lines (height - 50) line_height left_margin
             right_margin font_name font_size text_color c)))
       = length (pages c) + (length lines - 1) div (nat (usable_height div line_height) + 1)
     \<and> length (marks_added c (snd (draw_text_lines primary lines (height - 50) line_height
             left_margin right_margin font_name font_size text_color c)))
       = length lines + 2 * ((length lines - 1) div (nat (usable_height div line_height) + 1))"
  using pages_draw_text_lines_from_top [OF assms, of primary lines left_margin right_margin
      font_name font_size text_color c]
    marks_count [of c primary lines "height - 50" line_height left_margin right_margin
      font_name font_size text_color]
  by simp

text \<open>
  A witness of C2: a hundred lines of 15 points, more than two pages tall, close two pages
  and leave 104 marks.
\<close>

theorem tall_block_is_split_over_pages_witness:
  "(0::int) < 15
   \<and> length (pages (snd (draw_text_lines ''#E63946'' (replicate 100 ''line'') (height - 50) 15
         70 50 ''Helvetica'' 10 ''#333333'' (Canvas ''r.pdf'')))) = 2
   \<and> length (marks_added (Canvas ''r.pdf'')
        (snd (draw_text_lines ''#E63946'' (replicate 100 ''line'') (height - 50) 15
           70 50 ''Helvetica'' 10 ''#333333'' (Canvas ''r.pdf'')))) = 104"
  using tall_block_is_split_over_pages [of 15 "''#E63946''" "replicate 100 ''line''" 70 50
      "''Helvetica''" 10 "''#333333''" "Canvas ''r.pdf''"]
  by (simp add: usable_height_def height_def Canvas_def)

text \<open>
  C2 as stated fails: 63 lines of 11 points are one point taller than the usable height, and
  on an empty page they are all drawn on that page, the last at 60; no page is closed, and
  the call returns.
\<close>

theorem block_too_large_counterexample:
  "usable_height < int (length (replicate 63 ''line'')) * 11
   \<and> pages (snd (draw_text_lines primary_color (replicate 63 ''line'') (height - 50) 11 70 50
         ''Helvetica'' 10 ''#333333'' (Canvas ''r.pdf''))) = []
   \<and> page (snd (draw_text_lines primary_color (replicate 63 ''line'') (height - 50) 11 70 50
         ''Helvetica'' 10 ''#333333'' (Canvas ''r.pdf'')))
     = map (\<lambda>k. Text 70 (742 - 11 * int k) ''line'' ''Helvetica'' 10 ''#333333'') [0..<63]"
  by code_simp

text \<open>
  C3, as the code has it. Let the run start at or below the top margin, \<open>start_y \<le> height - 50\<close>,
  with a line height that is not negative. Before each line the cursor is at most
  \<open>height - 50\<close>; the line is drawn as the last mark of the page, at a y between 50 and
  \<open>height - 50\<close>, one line height above the cursor that the step leaves. When the cursor
  before the line is at least 50 the line stays on the page and the cursor only decreases, by
  the line height; otherwise exactly one page is closed, with its footer, and the cursor
  restarts from \<open>height - 50\<close>. The cursor itself is not bounded below by 50.
\<close>

theorem cursor_when_placing:
  assumes "k < length lines" and "start_y \<le> height - 50" and "0 \<le> line_height"
  shows "let (y, c1) = draw_text_lines primary (take k lines) start_y line_height
                         left_margin right_margin font_name font_size text_color c;
             (y', c2) = draw_text_lines primary (take (Suc k) lines) start_y line_height
                         left_margin right_margin font_name font_size text_color c
         in y \<le> height - 50
          \<and> last (page c2) =
              Text left_margin (y' + line_height) (lines ! k) font_name font_size text_color
          \<and> 50 \<le> y' + line_height \<and> y' + line_height \<le> height - 50
          \<and> (if 50 \<le> y then y' = y - line_height \<and> pages c2 = pages c1
              else y' = height - 50 - line_height
                 \<and> pages c2 = pages c1 @ [page c1 @ [footer_mark]])"
proof -
  obtain y c1 where r: "draw_text_lines primary (take k lines) start_y line_height
      left_margin right_margin font_name font_size text_color c = (y, c1)"
    by (cases "draw_text_lines primary (take k lines) start_y line_height
      left_margin right_margin font_name font_size text_color c")
  have st: "styled font_name font_size text_color c1"
    using styled_draw_text_lines [of font_name font_size text_color primary "take k lines"
        start_y line_height left_margin right_margin c]
    by (simp add: r)
  have le: "y \<le> 742"
    using cursor_le_top [of start_y line_height primary "take k lines" left_margin
        right_margin font_name font_size text_color c] assms(2,3)
    by (simp add: r height_def)
  show ?thesis
    using le
    by (simp add: draw_text_lines_take_Suc [OF assms(1)] r body_styled [OF st] height_def)
qed

text \<open>
  A witness of C3: the third of five lines drawn from \<open>height - 720\<close> finds the cursor at 42
  and opens the second page.
\<close>

theorem cursor_when_placing_witness:
  "2 < length [''1. a'', ''2. b'', ''3. c'', ''4. d'', ''5. e'']
   \<and> height - 720 \<le> height - 50 \<and> (0::int) \<le> 15
   \<and> fst (draw_text_lines ''#E63946'' (take 2 [''1. a'', ''2. b'', ''3. c'', ''4. d'', ''5. e''])
        (height - 720) 15 70 50 ''Helvetica'' 10 ''#333333'' (Canvas ''r.pdf'')) = 42
   \<and> draw_text_lines ''#E63946'' (take 3 [''1. a'', ''2. b'', ''3. c'', ''4. d'', ''5. e''])
        (height - 720) 15 70 50 ''Helvetica'' 10 ''#333333'' (Canvas ''r.pdf'')
     = (727,
        \<lparr>filename = ''r.pdf'', fontname = ''Helvetica'', fontsize = 10, fillcolor = ''#333333'',
         page = [header_mark ''#E63946'', Text 70 742 ''3. c'' ''Helvetica'' 10 ''#333333''],
         pages = [[Text 70 72 ''1. a'' ''Helvetica'' 10 ''#333333'',
                   Text 70 57 ''2. b'' ''Helvetica'' 10 ''#333333'', footer_mark]],
         saves = 0\<rparr>)"
  using cursor_when_placing [of 2 "[''1. a'', ''2. b'', ''3. c'', ''4. d'', ''5. e'']"
      "height - 720" 15 "''#E63946''" 70 50 "''Helvetica''" 10 "''#333333''" "Canvas ''r.pdf''"]
  by (simp add: draw_text_lines_def body_break body_fit height_def Canvas_def setFont_def
        setFillColor_def)

text \<open>
  C3 as stated fails: the list of cancer types is drawn from \<open>height - 720\<close>, and after its
  second line the cursor is 42, below the bottom margin, while lines remain to be placed.
\<close>

theorem cursor_below_margin_counterexample:
  "\<not> 50 \<le> fst (draw_text_lines ''#E63946'' [''1. Lung'', ''2. Breast''] (height - 720) 15 70 50
       ''Helvetica'' 10 ''#333333'' (Canvas ''r.pdf''))"
  by (simp add: draw_text_lines_def body_fit height_def)

text \<open>
  C4. When line \<open>k\<close> of a run finds the cursor below 50, so that a page break is taken, the new
  page holds (after the continuation header in the helper of the cancer and Titanic
  reports) that line in the font, size and colour of the run, and the canvas is left in that
  style; and every mark that a call of \<^verbatim>\<open>draw_text_lines\<close> adds is a footer, a
  continuation header or a line at the left margin in the style of the run, before and
  after each break. This holds for the helper of the cancer and Titanic reports and for
  the one of the diabetes report. The two inline loops, over the recommendations of the
  HIV report and over the insights of the causes of death report, take no page break at
  all: started at \<open>height - 80\<close>, they draw their 24 and 19 lines on the current page in the
  style that is active, and the branch that would re-set only the font is not reached.
\<close>

theorem style_kept_across_page_breaks:
  assumes "k < length lines"
  shows "(fst (draw_text_lines primary (take k lines) start_y line_height left_margin right_margin
             font_name font_size text_color c) < 50
          \<longrightarrow> page (snd (draw_text_lines primary (take (Suc k) lines) start_y line_height
                 left_margin right_margin font_name font_size text_color c))
               = [header_mark primary,
                  Text left_margin (height - 50) (lines ! k) font_name font_size text_color]
            \<and> styled font_name font_size text_color
                 (snd (draw_text_lines primary (take (Suc k) lines) start_y line_height
                    left_margin right_margin font_name font_size text_color c)))
     \<and> (fst (draw_text_lines_diabetes (take k lines) start_y line_height left_margin right_margin
             font_name font_size text_color c) < 50
          \<longrightarrow> page (snd (draw_text_lines_diabetes (take (Suc k) lines) start_y line_height
                 left_margin right_margin font_name font_size text_color c))
               = [Text left_margin (height - 50) (lines ! k) font_name font_size text_color]
            \<and> styled font_name font_size text_color
                 (snd (draw_text_lines_diabetes (take (Suc k) lines) start_y line_height
                    left_margin right_margin font_name font_size text_color c)))
     \<and> list_all (\<lambda>m. m = footer_mark \<or> m = header_mark primary
                     \<or> (\<exists>y line. m = Text left_margin y line font_name font_size text_color))
         (marks_added c (snd (draw_text_lines primary lines start_y line_height left_margin
           right_margin font_name font_size text_color c)))
     \<and> list_all (\<lambda>m. m = footer_mark
                     \<or> (\<exists>y line. m = Text left_margin y line font_name font_size text_color))
         (marks_added c (snd (draw_text_lines_diabetes lines start_y line_height left_margin
           right_margin font_name font_size text_color c)))
     \<and> fold hiv_recommendations_body hiv_recommendations (height - 80, c)
         = (352, c\<lparr>page := page c @
              map2 (\<lambda>k line. Text 70 (712 - 15 * int k) line (fontname c) (fontsize c) (fillcolor c))
                [0..<24] hiv_recommendations\<rparr>)
     \<and> fold insights_body insights (height - 80, c)
         = (427, c\<lparr>page := page c @
              map2 (\<lambda>k line. Text 70 (712 - 15 * int k) line (fontname c) (fontsize c) (fillcolor c))
                [0..<19] insights\<rparr>)"
proof -
  obtain y c1 where r: "draw_text_lines primary (take k lines) start_y line_height
      left_margin right_margin font_name font_size text_color c = (y, c1)"
    by (cases "draw_text_lines primary (take k lines) start_y line_height
      left_margin right_margin font_name font_size text_color c")
  obtain yd cd where d: "draw_text_lines_diabetes (take k lines) start_y line_height
      left_margin right_margin font_name font_size text_color c = (yd, cd)"
    by (cases "draw_text_lines_diabetes (take k lines) start_y line_height
      left_margin right_margin font_name font_size text_color c")
  have h: "fold hiv_recommendations_body hiv_recommendations (height - 80, c)
         = (352, c\<lparr>page := page c @
              map2 (\<lambda>k line. Text 70 (712 - 15 * int k) line (fontname c) (fontsize c) (fillcolor c))
                [0..<24] hiv_recommendations\<rparr>)"
    using hiv_recommendations_loop [of c] by (simp add: height_def)
  have i: "fold insights_body insights (height - 80, c)
         = (427, c\<lparr>page := page c @
              map2 (\<lambda>k line. Text 70 (712 - 15 * int k) line (fontname c) (fontsize c) (fillcolor c))
                [0..<19] insights\<rparr>)"
    using insights_loop [of c] by (simp add: height_def)
  show ?thesis
    unfolding h i
    by (simp add: draw_text_lines_take_Suc [OF assms] draw_text_lines_diabetes_take_Suc [OF assms]
          r d body_break diabetes_body_break styled_def height_def run_style_marks
          run_style_marks_diabetes)
qed

text \<open>
  A witness of C4: the second of three lines drawn from 60 opens a new page.
\<close>

theorem style_kept_across_page_breaks_witness:
  "1 < length [''a'', ''b'', ''c'']
   \<and> fst (draw_text_lines ''#1E4D79'' (take 1 [''a'', ''b'', ''c'']) 60 15 70 50
          ''Helvetica-Bold'' 11 ''#112233'' (Canvas ''t.pdf'')) = 45
   \<and> fst (draw_text_lines_diabetes (take 1 [''a'', ''b'', ''c'']) 60 15 70 50
          ''Helvetica-Bold'' 11 ''#112233'' (Canvas ''t.pdf'')) = 45
   \<and> snd (draw_text_lines ''#1E4D79'' (take 2 [''a'', ''b'', ''c'']) 60 15 70 50
          ''Helvetica-Bold'' 11 ''#112233'' (Canvas ''t.pdf''))
     = (Canvas ''t.pdf'')\<lparr>fontname := ''Helvetica-Bold'', fontsize := 11, fillcolor := ''#112233'',
         pages := [[Text 70 60 ''a'' ''Helvetica-Bold'' 11 ''#112233'', footer_mark]],
         page := [header_mark ''#1E4D79'', Text 70 742 ''b'' ''Helvetica-Bold'' 11 ''#112233'']\<rparr>
   \<and> snd (draw_text_lines_diabetes (take 2 [''a'', ''b'', ''c'']) 60 15 70 50
          ''Helvetica-Bold'' 11 ''#112233'' (Canvas ''t.pdf''))
     = (Canvas ''t.pdf'')\<lparr>fontname := ''Helvetica-Bold'', fontsize := 11, fillcolor := ''#112233'',
         pages := [[Text 70 60 ''a'' ''Helvetica-Bold'' 11 ''#112233'', footer_mark]],
         page := [Text 70 742 ''b'' ''Helvetica-Bold'' 11 ''#112233'']\<rparr>
   \<and> marks_added (Canvas ''t.pdf'')
       (snd (draw_text_lines ''#1E4D79'' [''a'', ''b'', ''c''] 60 15 70 50
          ''Helvetica-Bold'' 11 ''#112233'' (Canvas ''t.pdf'')))
     = [Text 70 60 ''a'' ''Helvetica-Bold'' 11 ''#112233'', footer_mark, header_mark ''#1E4D79'',
        Text 70 742 ''b'' ''Helvetica-Bold'' 11 ''#112233'',
        Text 70 727 ''c'' ''Helvetica-Bold'' 11 ''#112233'']"
  using style_kept_across_page_breaks [of 1 "[''a'', ''b'', ''c'']" "''#1E4D79''" 60 15 70 50
      "''Helvetica-Bold''" 11 "''#112233''" "Canvas ''t.pdf''"]
  by (simp add: draw_text_lines_def draw_text_lines_diabetes_def body_break body_fit
        diabetes_body_break diabetes_body_fit height_def Canvas_def setFont_def
        setFillColor_def marks_added_def all_marks_def)


text \<open>
  C6, as the code has it. Fifty lines of 15 points drawn from the top cursor
  \<open>height - 50 = 742\<close>, followed by the footer and the end of the page, give exactly two
  pages: 47 lines on the first, from 742 down to 52, and the remaining 3 on the second (in
  the cancer and Titanic helper below the continuation header), with the footer on both.
  Drawn from \<open>height - 80\<close> below a title, as the executive summary does, the first page
  takes 45 lines and the second 5.
\<close>

theorem fifty_lines_on_two_pages:
  "(let c' = showPage (add_footer (snd (draw_text_lines primary_color (replicate 50 ''line'')
              (height - 50) 15 70 50 ''Helvetica'' 10 ''#333333'' (Canvas ''r.pdf''))))
    in pages c' =
         [map (\<lambda>k. Text 70 (742 - 15 * int k) ''line'' ''Helvetica'' 10 ''#333333'') [0..<47]
            @ [footer_mark],
          header_mark primary_color
            # map (\<lambda>k. Text 70 (742 - 15 * int k) ''line'' ''Helvetica'' 10 ''#333333'') [0..<3]
            @ [footer_mark]]
       \<and> page c' = [])
   \<and> (let c' = showPage (add_footer (snd (draw_text_lines_diabetes (replicate 50 ''line'')
              (height - 50) 15 70 50 ''Helvetica'' 10 ''#333333'' (Canvas ''r.pdf''))))
    in pages c' =
         [map (\<lambda>k. Text 70 (742 - 15 * int k) ''line'' ''Helvetica'' 10 ''#333333'') [0..<47]
            @ [footer_mark],
          map (\<lambda>k. Text 70 (742 - 15 * int k) ''line'' ''Helvetica'' 10 ''#333333'') [0..<3]
            @ [footer_mark]]
       \<and> page c' = [])
   \<and> (case executive_summary
           \<lparr>generated_on = ''Generated on 2025-01-01 09:00'',
            summary_text = replicate 50 ''line'', regional_summary = [],
            cancer_type_list = [], age_text = []\<rparr> (Canvas ''r.pdf'') of
         Inl e \<Rightarrow> False
       | Inr c' \<Rightarrow>
           pages c' =
             [Text 50 742 ''Executive Summary'' ''Helvetica-Bold'' 18 primary_color
                # map (\<lambda>k. Text 70 (712 - 15 * int k) ''line'' ''Helvetica'' 10 ''#333333'') [0..<45]
                @ [footer_mark],
              header_mark primary_color
                # map (\<lambda>k. Text 70 (742 - 15 * int k) ''line'' ''Helvetica'' 10 ''#333333'') [0..<5]
                @ [footer_mark]]
           \<and> page c' = [])"
  by code_simp

text \<open>
  C6 as stated fails: the 47th line is on the first page, at 52, and three lines, not four,
  are left for the second page.
\<close>

theorem fifty_lines_counterexample:
  "pages (snd (draw_text_lines primary_color (replicate 50 ''line'') (height - 50) 15 70 50
       ''Helvetica'' 10 ''#333333'' (Canvas ''r.pdf''))) ! 0 ! 46
     = Text 70 52 ''line'' ''Helvetica'' 10 ''#333333''
   \<and> page (snd (draw_text_lines primary_color (replicate 50 ''line'') (height - 50) 15 70 50
       ''Helvetica'' 10 ''#333333'' (Canvas ''r.pdf'')))
     = [header_mark primary_color,
        Text 70 742 ''line'' ''Helvetica'' 10 ''#333333'',
        Text 70 727 ''line'' ''Helvetica'' 10 ''#333333'',
        Text 70 712 ''line'' ''Helvetica'' 10 ''#333333'']"
  by code_simp



text \<open>
  C8. Line \<open>k\<close> of a run is handled as follows, whatever the lines, the starting cursor
  and the line height. If the cursor is below 50 when the line is about to be drawn, the
  page break occurs first: the current page receives the footer and is closed, and the
  line is drawn at \<open>height - 50\<close> on the new page (after the continuation header in the helper
  of the cancer and Titanic reports; the helper of the diabetes report draws no header).
  Otherwise no page is closed and the line is drawn at the cursor on the current page.
  Hence every mark that a call adds is either the footer, which is text at \<open>y = 20\<close> inside
  the bottom margin, or a \<^verbatim>\<open>drawString\<close> at a y of at least 50. From above the lines are
  bounded only by the starting cursor: with a non-negative line height every
  \<^verbatim>\<open>drawString\<close> is at most at the larger of the starting cursor and \<open>height - 30\<close>
  (\<open>height - 50\<close> in the diabetes helper).
\<close>

theorem page_break_before_line_below_margin:
  assumes "k < length lines"
  shows "(let (y, c1) = draw_text_lines primary (take k lines) start_y line_height left_margin
                         right_margin font_name font_size text_color c;
              (y', c2) = draw_text_lines primary (take (Suc k) lines) start_y line_height
                         left_margin right_margin font_name font_size text_color c
          in if y < 50 then
               pages c2 = pages c1 @ [page c1 @ [footer_mark]]
               \<and> page c2 = [header_mark primary,
                     Text left_margin (height - 50) (lines ! k) font_name font_size text_color]
             else pages c2 = pages c1
               \<and> page c2 = page c1 @ [Text left_margin y (lines ! k) font_name font_size text_color])
     \<and> (let (y, c1) = draw_text_lines_diabetes (take k lines) start_y line_height left_margin
                         right_margin font_name font_size text_color c;
              (y', c2) = draw_text_lines_diabetes (take (Suc k) lines) start_y line_height
                         left_margin right_margin font_name font_size text_color c
          in if y < 50 then
               pages c2 = pages c1 @ [page c1 @ [footer_mark]]
               \<and> page c2 = [Text left_margin (height - 50) (lines ! k) font_name font_size text_color]
             else pages c2 = pages c1
               \<and> page c2 = page c1 @ [Text left_margin y (lines ! k) font_name font_size text_color])
     \<and> list_all (\<lambda>m. m = footer_mark \<or> (\<exists>x y s f z col. m = Text x y s f z col \<and> 50 \<le> y))
         (marks_added c (snd (draw_text_lines primary lines start_y line_height left_margin
            right_margin font_name font_size text_color c)))
     \<and> list_all (\<lambda>m. m = footer_mark \<or> (\<exists>x y s f z col. m = Text x y s f z col \<and> 50 \<le> y))
         (marks_added c (snd (draw_text_lines_diabetes lines start_y line_height left_margin
            right_margin font_name font_size text_color c)))
     \<and> (0 \<le> line_height \<longrightarrow>
          list_all (\<lambda>m. m = footer_mark
               \<or> (\<exists>x y s f z col. m = Text x y s f z col \<and> y \<le> max start_y (height - 30)))
            (marks_added c (snd (draw_text_lines primary lines start_y line_height left_margin
               right_margin font_name font_size text_color c)))
          \<and> list_all (\<lambda>m. m = footer_mark
               \<or> (\<exists>x y s f z col. m = Text x y s f z col \<and> y \<le> max start_y (height - 50)))
            (marks_added c (snd (draw_text_lines_diabetes lines start_y line_height left_margin
               right_margin font_name font_size text_color c))))"
proof -
  have h: "height - 50 = 742" "height - 30 = 762"
    by (simp_all add: height_def)
  note s1 = step_of_run [OF assms, of primary start_y line_height left_margin right_margin
      font_name font_size text_color c]
  note s2 = step_of_run_diabetes [OF assms, of start_y line_height left_margin right_margin
      font_name font_size text_color c]
  note m1 = marks_between [of c primary lines start_y line_height left_margin right_margin
      font_name font_size text_color]
  note m2 = marks_between_diabetes [of c lines start_y line_height left_margin right_margin
      font_name font_size text_color]
  note t1 = marks_below_top [of line_height start_y c primary lines left_margin right_margin
      font_name font_size text_color]
  note t2 = marks_below_top_diabetes [of line_height start_y c lines left_margin right_margin
      font_name font_size text_color]
  show ?thesis
    unfolding h by (intro conjI impI s1 s2 m1 m2 t1 t2; assumption)
qed

text \<open>
  A witness of C8: from a cursor of 60 with line height 15 the second line finds the cursor
  at 45, the first page is closed with its footer, and the line is drawn at 742 on the new
  page.
\<close>

theorem page_break_before_line_below_margin_witness:
  "1 < length [''a'', ''b''] \<and> (0::int) \<le> 15
   \<and> draw_text_lines ''#E63946'' (take 1 [''a'', ''b'']) 60 15 70 50 ''Helvetica'' 10 ''#333333''
        (Canvas ''r.pdf'')
     = (45, (Canvas ''r.pdf'')\<lparr>fontname := ''Helvetica'', fontsize := 10, fillcolor := ''#333333'',
              page := [Text 70 60 ''a'' ''Helvetica'' 10 ''#333333'']\<rparr>)
   \<and> draw_text_lines ''#E63946'' (take 2 [''a'', ''b'']) 60 15 70 50 ''Helvetica'' 10 ''#333333''
        (Canvas ''r.pdf'')
     = (727, (Canvas ''r.pdf'')\<lparr>fontname := ''Helvetica'', fontsize := 10, fillcolor := ''#333333'',
              pages := [[Text 70 60 ''a'' ''Helvetica'' 10 ''#333333'', footer_mark]],
              page := [header_mark ''#E63946'', Text 70 742 ''b'' ''Helvetica'' 10 ''#333333'']\<rparr>)
   \<and> draw_text_lines_diabetes (take 2 [''a'', ''b'']) 60 15 70 50 ''Helvetica'' 10 ''#333333''
        (Canvas ''r.pdf'')
     = (727, (Canvas ''r.pdf'')\<lparr>fontname := ''Helvetica'', fontsize := 10, fillcolor := ''#333333'',
              pages := [[Text 70 60 ''a'' ''Helvetica'' 10 ''#333333'', footer_mark]],
              page := [Text 70 742 ''b'' ''Helvetica'' 10 ''#333333'']\<rparr>)"
  using page_break_before_line_below_margin [of 1 "[''a'', ''b'']" "''#E63946''" 60 15 70 50
      "''Helvetica''" 10 "''#333333''" "Canvas ''r.pdf''"]
  by (simp add: draw_text_lines_def draw_text_lines_diabetes_def body_break body_fit
        diabetes_body_break diabetes_body_fit setFont_def setFillColor_def Canvas_def)

text \<open>
  C8, as stated for every text-draw call and every starting cursor, fails twice: the footer
  that \<^verbatim>\<open>draw_text_lines\<close> draws before it closes a page is text at \<open>y = 20\<close>, below the
  bottom margin; and a run started at 800 draws its first line at 800, above the page
  height of 792.
\<close>

theorem text_outside_margins_counterexample:
  "footer_mark \<in> set (marks_added (Canvas ''r.pdf'')
       (snd (draw_text_lines ''#E63946'' [''a'', ''b''] 60 15 70 50 ''Helvetica'' 10 ''#333333''
          (Canvas ''r.pdf''))))
   \<and> footer_mark = Centred 306 20 footer_text ''Helvetica-Oblique'' 8 ''#666666''
   \<and> \<not> 50 \<le> (20::int)
   \<and> Text 70 800 ''a'' ''Helvetica'' 10 ''#333333''
       \<in> set (marks_added (Canvas ''r.pdf'')
           (snd (draw_text_lines ''#E63946'' [''a''] 800 15 70 50 ''Helvetica'' 10 ''#333333''
              (Canvas ''r.pdf''))))
   \<and> height < 800"
  by (simp add: draw_text_lines_def body_break body_fit setFont_def setFillColor_def
        Canvas_def marks_added_def all_marks_def footer_mark_def height_def)

text \<open>
  C9. The marks that \<^verbatim>\<open>draw_text_lines\<close> adds are, line by line and in the order of the
  list, one text mark per line at the left margin in the style of the run, each preceded
  either by nothing or by the footer and the continuation header of one page break; and the
  returned cursor is one line height below the y of the last line drawn (the starting cursor
  when there is no line). No line is dropped or drawn twice.
\<close>

theorem each_line_drawn_once_in_order:
  "\<exists>ds ys. length ds = length lines \<and> length ys = length lines
     \<and> set ds \<subseteq> {[], [footer_mark, header_mark primary]}
     \<and> marks_added c (snd (draw_text_lines primary lines start_y line_height
           left_margin right_margin font_name font_size text_color c))
         = concat (map2 (\<lambda>d (y, line). d @ [Text left_margin y line font_name font_size text_color])
             ds (zip ys lines))
     \<and> fst (draw_text_lines primary lines start_y line_height
           left_margin right_margin font_name font_size text_color c)
         = (if lines = [] then start_y else last ys - line_height)"
proof (induction lines rule: rev_induct)
  case Nil
  show ?case by (simp add: draw_text_lines_Nil marks_added_def all_marks_def)
next
  case (snoc l ls)
  obtain y' c' where r:
    "draw_text_lines primary ls start_y line_height left_margin right_margin
       font_name font_size text_color c = (y', c')"
    by (cases "draw_text_lines primary ls start_y line_height left_margin right_margin
       font_name font_size text_color c")
  from snoc r obtain ds ys where
    len: "length ds = length ls" "length ys = length ls" and
    ds: "set ds \<subseteq> {[], [footer_mark, header_mark primary]}" and
    ms: "marks_added c c' =
      concat (map2 (\<lambda>d (y, line). d @ [Text left_margin y line font_name font_size text_color])
        ds (zip ys ls))"
    by auto
  let ?d = "if y' < 50 then [footer_mark, header_mark primary] else []"
  let ?y = "if y' < 50 then 742 else y'"
  have "length (ds @ [?d]) = length (ls @ [l])" "length (ys @ [?y]) = length (ls @ [l])"
    using len by simp_all
  moreover have "set (ds @ [?d]) \<subseteq> {[], [footer_mark, header_mark primary]}"
    using ds by auto
  moreover have "marks_added c (snd (draw_text_lines primary (ls @ [l]) start_y line_height
           left_margin right_margin font_name font_size text_color c))
       = concat (map2 (\<lambda>d (y, line). d @ [Text left_margin y line font_name font_size text_color])
             (ds @ [?d]) (zip (ys @ [?y]) (ls @ [l])))"
    using len by (simp add: marks_added_snoc [OF r] ms)
  moreover have "fst (draw_text_lines primary (ls @ [l]) start_y line_height
           left_margin right_margin font_name font_size text_color c)
       = (if ls @ [l] = [] then start_y else last (ys @ [?y]) - line_height)"
    by (simp add: fst_draw_text_lines_snoc [OF r])
  ultimately show ?case by blast
qed

text \<open>
  C10. With an empty list of lines \<^verbatim>\<open>draw_text_lines\<close> draws nothing and breaks no page,
  whatever the starting cursor (also one below the bottom margin): it returns the starting
  cursor, and the canvas is the given one with the font and the fill colour set to the style
  parameters. This holds for the helper of the cancer and Titanic reports and for the one of
  the diabetes report.
\<close>

theorem draw_text_lines_empty:
  "draw_text_lines primary [] start_y line_height left_margin right_margin
       font_name font_size text_color c
     = (start_y, c\<lparr>fontname := font_name, fontsize := font_size, fillcolor := text_color\<rparr>)
   \<and> draw_text_lines_diabetes [] start_y line_height left_margin right_margin
       font_name font_size text_color c
     = (start_y, c\<lparr>fontname := font_name, fontsize := font_size, fillcolor := text_color\<rparr>)"
  by (simp add: draw_text_lines_def draw_text_lines_diabetes_def setFont_def setFillColor_def)

end
